theory Spec2Isabelle
  imports Main "HOL-Library.Monad_Syntax"
begin

section \<open>tcpserv: a length-prefixed request/response protocol over a byte stream\<close>

text \<open>
  A shallow embedding of \<^verbatim>\<open>src/tcpserv.py\<close> (Python 2). A Python 2 \<^verbatim>\<open>str\<close> is a
  sequence of bytes and is modelled as \<^typ>\<open>string\<close>; \<^verbatim>\<open>len\<close> is \<^const>\<open>length\<close>.
  Exceptions are values of \<open>exn\<close>, a call that raises returns \<open>Inl\<close>. A call that
  never returns (a loop that spins for ever, a read that blocks for ever) is \<open>None\<close>.
  The leading underscore of \<^verbatim>\<open>_recvn\<close> and \<^verbatim>\<open>_server\<close> is dropped, since an
  Isabelle name starts with a letter.

  What lies outside the module is modelled as far as the module can observe it. The
  transport is reliable: \<^verbatim>\<open>sendall\<close> writes all its bytes, and \<^verbatim>\<open>recv\<close> delivers the
  bytes of the peer in order, in pieces of any size, without raising. The handler is
  a total function that returns or raises. Of \<^verbatim>\<open>listen\<close>, which serves every
  connection in a thread of its own, one connection is modelled; the threads share no
  state.
\<close>

subsection \<open>Values and exceptions\<close>

text \<open>
  The arguments of \<^verbatim>\<open>request\<close> and the return value of the handler are untyped in
  Python; the code tests \<^verbatim>\<open>type(x) != str\<close>. \<open>Str\<close> is the exact type \<^verbatim>\<open>str\<close>, the
  other constructors stand for values of any other type.
\<close>

datatype pyval = Str string | Unicode string | IntVal int | NoneVal

text \<open>
  \<open>ValueError\<close> is what the code raises where the specification says
  \<^verbatim>\<open>ValidationError\<close>; \<open>StructError\<close> is \<^verbatim>\<open>struct.error\<close>; \<open>SocketError\<close> is
  \<^verbatim>\<open>socket.error\<close> raised by a refused \<^verbatim>\<open>connect\<close>; \<open>Raised\<close> is any exception of
  the caller-supplied handler.
\<close>

datatype exn = ValueError | StructError | SocketError | Raised string

subsection \<open>The length field: \<^verbatim>\<open>struct.pack("!I", x)\<close> and \<^verbatim>\<open>struct.unpack("!I", b)\<close>\<close>

text \<open>
  The library functions of Python 2.7: \<^verbatim>\<open>"!I"\<close> is an unsigned integer of 4 bytes in
  network (big-endian) byte order. Packing a number outside \<open>0 .. 2^32 - 1\<close> raises
  \<^verbatim>\<open>struct.error\<close>, as does unpacking a string whose length is not 4.
\<close>

definition struct_pack_I :: "nat \<Rightarrow> exn + string" where
  "struct_pack_I x =
     (if x < 2 ^ 32
      then Inr [char_of (x div 2 ^ 24), char_of (x div 2 ^ 16), char_of (x div 2 ^ 8), char_of x]
      else Inl StructError)"

definition struct_unpack_I :: "string \<Rightarrow> exn + nat" where
  "struct_unpack_I b =
     (case b of
        [b3, b2, b1, b0] \<Rightarrow>
          Inr (of_char b3 * 2 ^ 24 + of_char b2 * 2 ^ 16 + of_char b1 * 2 ^ 8 + of_char b0)
      | _ \<Rightarrow> Inl StructError)"

text \<open>Lines 40 to 48. The module refuses to load unless \<open>DATA_SIZE_LEN\<close> is 4.\<close>

definition DATA_SIZE_LEN :: nat where
  "DATA_SIZE_LEN = (case struct_pack_I 0 of Inr b \<Rightarrow> length b | Inl e \<Rightarrow> 0)"

definition MAX_DATA :: nat where
  "MAX_DATA = 2 ^ (DATA_SIZE_LEN * 8)"

subsection \<open>Sockets\<close>

text \<open>
  The operations a program performs on one socket, in order. \<open>Recv k p\<close> is a call
  \<^verbatim>\<open>recv(k)\<close> that returned \<open>p\<close>.
\<close>

datatype op = Connect string nat | Sendall string | Recv nat string | Close

fun sent :: "op list \<Rightarrow> string" where
  "sent [] = []"
| "sent (Sendall b # os) = b @ sent os"
| "sent (Connect h p # os) = sent os"
| "sent (Recv k p # os) = sent os"
| "sent (Close # os) = sent os"

fun received :: "op list \<Rightarrow> nat" where
  "received [] = 0"
| "received (Recv k p # os) = length p + received os"
| "received (Connect h p # os) = received os"
| "received (Sendall b # os) = received os"
| "received (Close # os) = received os"

text \<open>
  One end of a TCP connection. \<open>peer\<close> is the remote end: the bytes it sends on this
  connection once it has received the given bytes. \<open>eof\<close> tells whether the remote end
  closes the stream after these bytes (every further read then returns the empty string)
  or keeps it open and stays silent (a further read then blocks for ever). \<open>frag\<close> is
  the fragmentation of the delivery: the number of bytes that the transport has ready at
  each successive \<^verbatim>\<open>recv\<close>, at least one byte each time; when the list is used up,
  everything that is left is ready. \<open>ops\<close> is the history of the socket.
\<close>

record sock =
  peer :: "string \<Rightarrow> string"
  eof :: bool
  frag :: "nat list"
  ops :: "op list"

text \<open>The bytes of the incoming stream that have not been read yet.\<close>

definition rx :: "sock \<Rightarrow> string" where
  "rx s = drop (received (ops s)) (peer s (sent (ops s)))"

text \<open>
  \<^verbatim>\<open>sock.recv(bufsize)\<close>: at most \<open>bufsize\<close> bytes, at least one byte unless the
  stream is at its end; blocks (\<open>None\<close>) while nothing is there and the stream is open.
\<close>

definition recv :: "sock \<Rightarrow> nat \<Rightarrow> (string \<times> sock) option" where
  "recv s bufsize =
     (if rx s = [] \<and> \<not> eof s \<and> 0 < bufsize then None
      else
        let ready = (case frag s of [] \<Rightarrow> length (rx s) | c # cs \<Rightarrow> max 1 c);
            pack = take (min bufsize ready) (rx s)
        in Some (pack, s\<lparr>frag := tl (frag s), ops := ops s @ [Recv bufsize pack]\<rparr>))"

text \<open>\<^verbatim>\<open>sock.sendall(data)\<close> and \<^verbatim>\<open>sock.close()\<close> on a reliable transport.\<close>

definition sendall :: "sock \<Rightarrow> string \<Rightarrow> sock" where
  "sendall s b = s\<lparr>ops := ops s @ [Sendall b]\<rparr>"

definition close :: "sock \<Rightarrow> sock" where
  "close s = s\<lparr>ops := ops s @ [Close]\<rparr>"

text \<open>
  The network seen from a client: who listens at which address. An endpoint answers the
  bytes it receives with \<open>reply\<close>, closes afterwards or not (\<open>closes\<close>), and its
  answer reaches the client fragmented as \<open>delivery\<close> says.
\<close>

record endpoint =
  reply :: "string \<Rightarrow> string"
  closes :: bool
  delivery :: "nat list"

type_synonym network = "string \<times> nat \<Rightarrow> endpoint option"

text \<open>\<^verbatim>\<open>socket.socket(AF_INET, SOCK_STREAM)\<close>: a fresh socket, not connected.\<close>

definition socket_new :: sock where
  "socket_new = \<lparr>peer = (\<lambda>t. []), eof = False, frag = [], ops = []\<rparr>"

text \<open>\<^verbatim>\<open>sock.connect((host, port))\<close>: raises \<^verbatim>\<open>socket.error\<close> when nothing listens there.\<close>

definition connect :: "network \<Rightarrow> sock \<Rightarrow> string \<Rightarrow> nat \<Rightarrow> (exn + unit) \<times> sock" where
  "connect net s host port =
     (case net (host, port) of
        None \<Rightarrow> (Inl SocketError, s\<lparr>ops := ops s @ [Connect host port]\<rparr>)
      | Some e \<Rightarrow>
          (Inr (), s\<lparr>peer := reply e, eof := closes e, frag := delivery e,
                     ops := ops s @ [Connect host port]\<rparr>))"

subsection \<open>\<^verbatim>\<open>_recvn\<close>, lines 116 to 126\<close>

text \<open>
  The loop \<^verbatim>\<open>while m < n\<close> with its variables \<open>m\<close> and \<open>buf\<close>. Nothing in the
  loop looks at the length of \<open>pack\<close>: when \<^verbatim>\<open>recv\<close> returns the empty string the
  next iteration starts from the same \<open>m\<close>.
\<close>

partial_function (option) recvn_loop ::
  "sock \<Rightarrow> nat \<Rightarrow> nat \<Rightarrow> string list \<Rightarrow> (string \<times> sock) option" where
  "recvn_loop s n m buf =
     (if m < n
      then Option.bind (recv s (n - m))
             (\<lambda>r. recvn_loop (snd r) n (m + length (fst r)) (buf @ [fst r]))
      else Some (concat buf, s))"

definition recvn :: "sock \<Rightarrow> nat \<Rightarrow> (string \<times> sock) option" where
  "recvn s n = recvn_loop s n 0 []"

subsection \<open>\<^verbatim>\<open>_server\<close>, lines 129 to 146\<close>

text \<open>
  The handler is supplied by the caller: it returns a value or raises. The connection
  task ends after the second \<^verbatim>\<open>sendall\<close>: the function contains no call of
  \<^verbatim>\<open>close\<close>.
\<close>

type_synonym handler = "string \<Rightarrow> exn + pyval"

definition server :: "sock \<Rightarrow> handler \<Rightarrow> ((exn + unit) \<times> sock) option" where
  "server clientsock handler =
     do {
       (b4, s1) \<leftarrow> recvn clientsock DATA_SIZE_LEN;
       case struct_unpack_I b4 of
         Inl e \<Rightarrow> Some (Inl e, s1)
       | Inr n \<Rightarrow>
           do {
             (req, s2) \<leftarrow> recvn s1 n;
             case handler req of
               Inl e \<Rightarrow> Some (Inl e, s2)
             | Inr resp \<Rightarrow>
                 (case resp of
                    Str r \<Rightarrow>
                      if MAX_DATA < length r then Some (Inl ValueError, s2)
                      else
                        (case struct_pack_I (length r) of
                           Inl e \<Rightarrow> Some (Inl e, s2)
                         | Inr b4' \<Rightarrow> Some (Inr (), sendall (sendall s2 b4') r))
                  | _ \<Rightarrow> Some (Inl ValueError, s2))
           }
     }"

subsection \<open>\<^verbatim>\<open>request\<close>, lines 88 to 113\<close>

text \<open>
  The result is the outcome of the call together with the operations it performed
  on its socket; the list is empty when the call ends before line 104.
\<close>

definition request ::
  "network \<Rightarrow> string \<Rightarrow> nat \<Rightarrow> pyval \<Rightarrow> ((exn + string) \<times> op list) option" where
  "request net host port data =
     (case data of
        Str d \<Rightarrow>
          if MAX_DATA < length d then Some (Inl ValueError, [])
          else
            (case connect net socket_new host port of
               (Inl e, s) \<Rightarrow> Some (Inl e, ops s)
             | (Inr u, s) \<Rightarrow>
                 (case struct_pack_I (length d) of
                    Inl e \<Rightarrow> Some (Inl e, ops s)
                  | Inr b4 \<Rightarrow>
                      do {
                        (b4', s1) \<leftarrow> recvn (sendall (sendall s b4) d) DATA_SIZE_LEN;
                        case struct_unpack_I b4' of
                          Inl e \<Rightarrow> Some (Inl e, ops s1)
                        | Inr n \<Rightarrow>
                            do {
                              (data', s2) \<leftarrow> recvn s1 n;
                              Some (Inr data', ops (close s2))
                            }
                      }))
      | _ \<Rightarrow> Some (Inl ValueError, []))"

subsection \<open>\<^verbatim>\<open>listen\<close>, lines 51 to 85, seen from one connection\<close>

text \<open>
  \<^verbatim>\<open>listen\<close> accepts connections for ever and starts \<^verbatim>\<open>_server(clientsock, handler)\<close>
  on each one in a thread of its own; the threads share nothing. Only a single
  connection is modelled. \<open>accepted\<close> is the socket that \<^verbatim>\<open>accept\<close> returns for a
  client that sends \<open>inbytes\<close> and then waits for the answer. \<open>listener\<close> is such a
  server as the client sees it: the answer is what \<^verbatim>\<open>_server\<close> writes, nothing when
  it never gets that far, and the stream stays open afterwards.
\<close>

definition accepted :: "string \<Rightarrow> nat list \<Rightarrow> sock" where
  "accepted inbytes fr = \<lparr>peer = (\<lambda>t. inbytes), eof = False, frag = fr, ops = []\<rparr>"

definition listener :: "handler \<Rightarrow> nat list \<Rightarrow> nat list \<Rightarrow> endpoint" where
  "listener h sfrag cfrag =
     \<lparr>reply = (\<lambda>t. case server (accepted t sfrag) h of
                      None \<Rightarrow> []
                    | Some r \<Rightarrow> sent (ops (snd r))),
      closes = False, delivery = cfrag\<rparr>"

subsection \<open>The test of the module, lines 149 to 153\<close>

definition echo_handler :: handler where
  "echo_handler data = Inr (Str data)"

definition test_net :: "nat list \<Rightarrow> nat list \<Rightarrow> network" where
  "test_net sfrag cfrag =
     (\<lambda>a. if a = (''localhost'', 55555) then Some (listener echo_handler sfrag cfrag) else None)"

subsection \<open>Payloads\<close>

text \<open>
  What both \<^verbatim>\<open>request\<close> (lines 100 to 103) and \<^verbatim>\<open>_server\<close> (lines 140 to 143)
  let pass: a value of type \<^verbatim>\<open>str\<close> of at most \<open>MAX_DATA\<close> bytes.
\<close>

definition is_payload :: "pyval \<Rightarrow> bool" where
  "is_payload v = (case v of Str d \<Rightarrow> length d \<le> MAX_DATA | _ \<Rightarrow> False)"

subsection \<open>Reading within the requested region\<close>

text \<open>
  \<open>requests_within r os\<close>: the operations \<open>os\<close> are reads only, and each of them asks
  for no more than what is still missing of \<open>r\<close> bytes after the reads before it.
\<close>

fun requests_within :: "nat \<Rightarrow> op list \<Rightarrow> bool" where
  "requests_within r [] = True"
| "requests_within r (Recv k p # os) = (k \<le> r \<and> requests_within (r - length p) os)"
| "requests_within r (Connect h p # os) = False"
| "requests_within r (Sendall b # os) = False"
| "requests_within r (Close # os) = False"

text \<open>
  \<open>reads s s' k\<close>: the socket went from \<open>s\<close> to \<open>s'\<close> by reads alone, which
  consumed \<open>k\<close> bytes of the incoming stream.
\<close>

definition reads :: "sock \<Rightarrow> sock \<Rightarrow> nat \<Rightarrow> bool" where
  "reads s s' k =
     (peer s' = peer s \<and> eof s' = eof s \<and>
      (\<exists>rs. ops s' = ops s @ rs \<and> sent rs = [] \<and> received rs = k \<and> requests_within k rs))"

subsection \<open>Connections used as examples\<close>

text \<open>
  \<open>hung_up inbytes\<close> is the socket of a connection whose remote end has sent
  \<open>inbytes\<close> and then closed the stream.
\<close>

definition hung_up :: "string \<Rightarrow> sock" where
  "hung_up inbytes = \<lparr>peer = (\<lambda>t. inbytes), eof = True, frag = [], ops = []\<rparr>"

text \<open>A handler that raises, and a handler whose response has \<open>MAX_DATA\<close> bytes.\<close>

definition failing_handler :: handler where
  "failing_handler data = Inl (Raised ''boom'')"

definition big_handler :: handler where
  "big_handler data = Inr (Str (replicate MAX_DATA (CHR ''1'')))"

text \<open>A handler whose response has \<open>MAX_DATA + 1\<close> bytes.\<close>

definition oversize_handler :: handler where
  "oversize_handler data = Inr (Str (replicate (Suc MAX_DATA) (CHR ''1'')))"

section \<open>Properties\<close>

subsection \<open>The length field\<close>

lemma DATA_SIZE_LEN_4: "DATA_SIZE_LEN = 4"
  by (simp add: DATA_SIZE_LEN_def struct_pack_I_def)

lemma MAX_DATA_eq: "MAX_DATA = 4294967296"
  by (simp add: MAX_DATA_def DATA_SIZE_LEN_4)

lemma be32_decompose:
  fixes x :: nat
  assumes "x < 4294967296"
  shows "x div 16777216 mod 256 * 16777216 + x div 65536 mod 256 * 65536
           + x div 256 mod 256 * 256 + x mod 256 = x"
proof -
  have a: "x mod (256 * 256) = 256 * (x div 256 mod 256) + x mod 256"
    by (rule mod_mult2_eq)
  have b: "x mod (65536 * 256) = 65536 * (x div 65536 mod 256) + x mod 65536"
    by (rule mod_mult2_eq)
  have c: "x mod (16777216 * 256) = 16777216 * (x div 16777216 mod 256) + x mod 16777216"
    by (rule mod_mult2_eq)
  have d: "x mod (16777216 * 256) = x"
    using assms by simp
  from a b c d show ?thesis by simp
qed

lemma struct_pack_length: "struct_pack_I x = Inr b \<Longrightarrow> length b = 4"
  by (auto simp: struct_pack_I_def split: if_splits)

lemma struct_pack_bound: "struct_pack_I x = Inr b \<Longrightarrow> x < MAX_DATA"
  by (auto simp: struct_pack_I_def MAX_DATA_eq split: if_splits)

lemma struct_pack_Inr: "x < MAX_DATA \<Longrightarrow> \<exists>b. struct_pack_I x = Inr b"
  by (simp add: struct_pack_I_def MAX_DATA_eq)

lemma struct_pack_MAX_DATA: "struct_pack_I MAX_DATA = Inl StructError"
  by (simp add: struct_pack_I_def MAX_DATA_eq)

lemma struct_unpack_pack: "struct_pack_I x = Inr b \<Longrightarrow> struct_unpack_I b = Inr x"
  using be32_decompose [of x]
  by (auto simp: struct_pack_I_def struct_unpack_I_def split: if_splits)

subsection \<open>Histories\<close>

lemma sent_append: "sent (xs @ ys) = sent xs @ sent ys"
  by (induction xs rule: sent.induct) simp_all

lemma received_append: "received (xs @ ys) = received xs + received ys"
  by (induction xs rule: received.induct) simp_all

lemma requests_within_append:
  "requests_within (received xs) xs \<Longrightarrow> requests_within b ys \<Longrightarrow>
   requests_within (received xs + b) (xs @ ys)"
  by (induction xs rule: received.induct) simp_all

lemma rx_reads: "reads s s' k \<Longrightarrow> rx s' = drop k (rx s)"
  by (auto simp: reads_def rx_def add.commute sent_append received_append)

lemma sent_reads: "reads s s' k \<Longrightarrow> sent (ops s') = sent (ops s)"
  by (auto simp: reads_def sent_append)

lemma reads_refl: "reads s s 0"
  by (simp add: reads_def)

lemma reads_trans:
  assumes "reads s s1 a" "reads s1 s2 b"
  shows "reads s s2 (a + b)"
proof -
  from assms(1) obtain xs where xs: "ops s1 = ops s @ xs" "sent xs = []" "received xs = a"
    "requests_within a xs" and p1: "peer s1 = peer s" "eof s1 = eof s"
    by (auto simp: reads_def)
  from assms(2) obtain ys where ys: "ops s2 = ops s1 @ ys" "sent ys = []" "received ys = b"
    "requests_within b ys" and p2: "peer s2 = peer s1" "eof s2 = eof s1"
    by (auto simp: reads_def)
  have "requests_within (a + b) (xs @ ys)"
    using requests_within_append [of xs b ys] xs ys by simp
  then have "ops s2 = ops s @ (xs @ ys) \<and> sent (xs @ ys) = [] \<and> received (xs @ ys) = a + b \<and>
             requests_within (a + b) (xs @ ys)"
    using xs ys by (simp add: sent_append received_append)
  then show ?thesis
    unfolding reads_def using p1 p2 by metis
qed

subsection \<open>One read\<close>

lemma recv_Some:
  assumes "rx s \<noteq> []" "0 < k"
  shows "\<exists>j s'. recv s k = Some (take j (rx s), s') \<and> 0 < j \<and> j \<le> k \<and> j \<le> length (rx s) \<and>
           ops s' = ops s @ [Recv k (take j (rx s))] \<and> peer s' = peer s \<and> eof s' = eof s"
proof -
  define ready where "ready = (case frag s of [] \<Rightarrow> length (rx s) | c # cs \<Rightarrow> max 1 c)"
  define j where "j = min (min k ready) (length (rx s))"
  have r: "0 < ready"
    using assms by (auto simp: ready_def max_def split: list.split)
  have "take (min k ready) (rx s) = take j (rx s)"
    by (simp add: j_def min_def)
  then have "recv s k =
      Some (take j (rx s), s\<lparr>frag := tl (frag s), ops := ops s @ [Recv k (take j (rx s))]\<rparr>)"
    using assms by (simp add: recv_def ready_def Let_def)
  moreover have "0 < j" "j \<le> k" "j \<le> length (rx s)"
    using assms r by (simp_all add: j_def)
  ultimately show ?thesis by auto
qed

text \<open>At the end of the stream a read returns the empty string, again and again.\<close>

lemma recv_eof:
  assumes "eof s" "rx s = []"
  shows "\<exists>s'. recv s k = Some ([], s') \<and> eof s' \<and> rx s' = []"
  using assms by (simp add: recv_def rx_def Let_def sent_append received_append)

lemma recv_length:
  "recv s k = Some (p, s') \<Longrightarrow> length p + length (rx s') = length (rx s)"
  by (auto simp: recv_def rx_def Let_def sent_append received_append split: if_splits)

lemma reads_step:
  assumes "ops s1 = ops s @ [Recv k p]" "peer s1 = peer s" "eof s1 = eof s" "length p \<le> k"
    "reads s1 s' (k - length p)"
  shows "reads s s' k"
  using assms by (auto simp: reads_def sent_append received_append)

subsection \<open>The loop of \<^verbatim>\<open>_recvn\<close>\<close>

text \<open>When the stream holds the missing bytes the loop returns them, however they arrive.\<close>

lemma recvn_loop_complete:
  "n - m \<le> length (rx s) \<Longrightarrow>
   \<exists>s'. recvn_loop s n m buf = Some (concat buf @ take (n - m) (rx s), s') \<and> reads s s' (n - m)"
proof (induction "n - m" arbitrary: s m buf rule: less_induct)
  case less
  show ?case
  proof (cases "m < n")
    case False
    then show ?thesis
      by (subst recvn_loop.simps) (simp add: reads_refl)
  next
    case True
    with less.prems have ne: "rx s \<noteq> []" and pos: "0 < n - m"
      by auto
    from recv_Some [OF ne pos] obtain j s1 where
      rc: "recv s (n - m) = Some (take j (rx s), s1)" and
      j: "0 < j" "j \<le> n - m" "j \<le> length (rx s)" and
      s1: "ops s1 = ops s @ [Recv (n - m) (take j (rx s))]" "peer s1 = peer s" "eof s1 = eof s"
      by blast
    have lj: "length (take j (rx s)) = j"
      using j by simp
    have rx1: "rx s1 = drop j (rx s)"
      using s1 lj by (simp add: rx_def sent_append received_append add.commute)
    have "n - (m + j) < n - m"
      using j True by simp
    moreover have "n - (m + j) \<le> length (rx s1)"
      using less.prems j by (simp add: rx1)
    ultimately obtain s' where
      ih: "recvn_loop s1 n (m + j) (buf @ [take j (rx s)]) =
             Some (concat (buf @ [take j (rx s)]) @ take (n - (m + j)) (rx s1), s')"
      and rd: "reads s1 s' (n - (m + j))"
      using less.hyps by blast
    have "take j (rx s) @ take (n - (m + j)) (drop j (rx s)) = take (n - m) (rx s)"
      using j by (metis take_add le_add_diff_inverse diff_diff_left)
    then have res: "concat (buf @ [take j (rx s)]) @ take (n - (m + j)) (rx s1) =
                    concat buf @ take (n - m) (rx s)"
      by (simp add: rx1)
    have "recvn_loop s n m buf = Some (concat buf @ take (n - m) (rx s), s')"
      using True rc ih res lj by (subst recvn_loop.simps) simp
    moreover have "reads s s' (n - m)"
      using reads_step [OF s1, of s'] rd j lj by simp
    ultimately show ?thesis by blast
  qed
qed

text \<open>The loop returns only when the stream holds the missing bytes.\<close>

lemma recvn_loop_returns:
  assumes "recvn_loop s n m buf = Some r"
  shows "n - m \<le> length (rx s)"
proof (rule recvn_loop.raw_induct [where P = "\<lambda>s n m buf r. n - m \<le> length (rx s)", OF _ assms])
  fix f :: "sock \<Rightarrow> nat \<Rightarrow> nat \<Rightarrow> string list \<Rightarrow> (string \<times> sock) option"
  fix s n m buf r
  assume ih: "\<And>s n m buf r. f s n m buf = Some r \<Longrightarrow> n - m \<le> length (rx s)"
  assume st: "(if m < n
      then Option.bind (recv s (n - m))
             (\<lambda>r. f (snd r) n (m + length (fst r)) (buf @ [fst r]))
      else Some (concat buf, s)) = Some r"
  show "n - m \<le> length (rx s)"
  proof (cases "m < n")
    case False
    then show ?thesis by simp
  next
    case True
    with st obtain p s1 where rc: "recv s (n - m) = Some (p, s1)"
      and call: "f s1 n (m + length p) (buf @ [p]) = Some r"
      by (auto simp: bind_eq_Some_conv)
    from ih [OF call] recv_length [OF rc] show ?thesis by simp
  qed
qed

lemma recvn_complete:
  "n \<le> length (rx s) \<Longrightarrow> \<exists>s'. recvn s n = Some (take n (rx s), s') \<and> reads s s' n"
  using recvn_loop_complete [of n 0 s "[]"] by (simp add: recvn_def)

lemma recvn_short: "length (rx s) < n \<Longrightarrow> recvn s n = None"
  using recvn_loop_returns [of s n 0 "[]"] by (cases "recvn s n") (auto simp: recvn_def)

lemma recvn_returns:
  assumes "recvn s n = Some (d, s')"
  shows "n \<le> length (rx s) \<and> d = take n (rx s) \<and> reads s s' n"
proof -
  have le: "n \<le> length (rx s)"
    using recvn_loop_returns [of s n 0 "[]"] assms by (simp add: recvn_def)
  from recvn_complete [OF le] assms show ?thesis
    using le by auto
qed

lemma rx_accepted: "rx (accepted b fr) = b"
  by (simp add: rx_def accepted_def)

lemma rx_hung_up: "rx (hung_up b) = b"
  by (simp add: rx_def hung_up_def)

subsection \<open>Whole frames\<close>

lemma recv_frame:
  assumes pk: "struct_pack_I (length p) = Inr b4" and rxs: "rx s = b4 @ p @ rest"
  shows "\<exists>s1 s2. recvn s DATA_SIZE_LEN = Some (b4, s1) \<and> reads s s1 4 \<and>
           recvn s1 (length p) = Some (p, s2) \<and> reads s1 s2 (length p) \<and> rx s2 = rest"
proof -
  have l4: "length b4 = 4"
    using pk by (rule struct_pack_length)
  have "4 \<le> length (rx s)"
    using l4 rxs by simp
  from recvn_complete [OF this] obtain s1 where
    r1: "recvn s 4 = Some (take 4 (rx s), s1)" and rd1: "reads s s1 4"
    by blast
  have t4: "take 4 (rx s) = b4"
    using l4 rxs by simp
  have rx1: "rx s1 = p @ rest"
    using rx_reads [OF rd1] l4 rxs by simp
  then have "length p \<le> length (rx s1)"
    by simp
  from recvn_complete [OF this] obtain s2 where
    r2: "recvn s1 (length p) = Some (take (length p) (rx s1), s2)" and
    rd2: "reads s1 s2 (length p)"
    by blast
  have "rx s2 = rest"
    using rx_reads [OF rd2] rx1 by simp
  then show ?thesis
    using r1 r2 rd1 rd2 t4 rx1 by (simp add: DATA_SIZE_LEN_4)
qed

text \<open>What \<^verbatim>\<open>_server\<close> does once the stream holds a whole request frame.\<close>

lemma server_frame:
  assumes pk: "struct_pack_I (length p) = Inr b4" and rxs: "rx s = b4 @ p @ rest"
  shows "\<exists>s2. reads s s2 (4 + length p) \<and>
           server s h =
             (case h p of
                Inl e \<Rightarrow> Some (Inl e, s2)
              | Inr resp \<Rightarrow>
                  (case resp of
                     Str r \<Rightarrow>
                       if MAX_DATA < length r then Some (Inl ValueError, s2)
                       else
                         (case struct_pack_I (length r) of
                            Inl e \<Rightarrow> Some (Inl e, s2)
                          | Inr b4' \<Rightarrow> Some (Inr (), sendall (sendall s2 b4') r))
                   | _ \<Rightarrow> Some (Inl ValueError, s2)))"
proof -
  from recv_frame [OF pk rxs] obtain s1 s2 where
    r1: "recvn s DATA_SIZE_LEN = Some (b4, s1)" and rd1: "reads s s1 4" and
    r2: "recvn s1 (length p) = Some (p, s2)" and rd2: "reads s1 s2 (length p)"
    by blast
  have "reads s s2 (4 + length p)"
    using rd1 rd2 by (rule reads_trans)
  moreover have "server s h =
             (case h p of
                Inl e \<Rightarrow> Some (Inl e, s2)
              | Inr resp \<Rightarrow>
                  (case resp of
                     Str r \<Rightarrow>
                       if MAX_DATA < length r then Some (Inl ValueError, s2)
                       else
                         (case struct_pack_I (length r) of
                            Inl e \<Rightarrow> Some (Inl e, s2)
                          | Inr b4' \<Rightarrow> Some (Inr (), sendall (sendall s2 b4') r))
                   | _ \<Rightarrow> Some (Inl ValueError, s2)))"
    using r1 r2 struct_unpack_pack [OF pk] by (simp add: server_def)
  ultimately show ?thesis by blast
qed

lemma sent_sendall: "sent (ops (sendall s b)) = sent (ops s) @ b"
  by (simp add: sendall_def sent_append)

lemma server_answers:
  assumes pk: "struct_pack_I (length p) = Inr b4" and rxs: "rx s = b4 @ p @ rest"
    and hp: "h p = Inr (Str r)" and pk': "struct_pack_I (length r) = Inr b4'"
  shows "\<exists>s2. reads s s2 (4 + length p) \<and>
           server s h = Some (Inr (), sendall (sendall s2 b4') r)"
proof -
  have "\<not> MAX_DATA < length r"
    using struct_pack_bound [OF pk'] by simp
  with server_frame [OF pk rxs, of h] hp pk' show ?thesis
    by simp
qed

lemma listener_reply:
  assumes pk: "struct_pack_I (length p) = Inr b4"
    and hp: "h p = Inr (Str r)" and pk': "struct_pack_I (length r) = Inr b4'"
  shows "reply (listener h sfrag cfrag) (b4 @ p) = b4' @ r"
proof -
  have "rx (accepted (b4 @ p) sfrag) = b4 @ p @ []"
    by (simp add: rx_accepted)
  from server_answers [where h = h, OF pk this hp pk'] obtain s2 where
    rd: "reads (accepted (b4 @ p) sfrag) s2 (4 + length p)" and
    sv: "server (accepted (b4 @ p) sfrag) h = Some (Inr (), sendall (sendall s2 b4') r)"
    by blast
  have "sent (ops s2) = []"
    using sent_reads [OF rd] by (simp add: accepted_def)
  then show ?thesis
    using sv by (simp add: listener_def sent_sendall)
qed

text \<open>What \<^verbatim>\<open>request\<close> does when the peer answers with a whole frame.\<close>

lemma request_answered:
  assumes nt: "net (host, port) = Some e"
    and pk: "struct_pack_I (length d) = Inr b4"
    and pk': "struct_pack_I (length r) = Inr b4'"
    and rp: "reply e (b4 @ d) = b4' @ r @ rest"
  shows "\<exists>rs. request net host port (Str d) =
             Some (Inr r, [Connect host port, Sendall b4, Sendall d] @ rs @ [Close]) \<and>
           sent rs = [] \<and> received rs = 4 + length r \<and> requests_within (4 + length r) rs"
proof -
  define s where "s = sendall (sendall
      (socket_new\<lparr>peer := reply e, eof := closes e, frag := delivery e,
                  ops := ops socket_new @ [Connect host port]\<rparr>) b4) d"
  have os: "ops s = [Connect host port, Sendall b4, Sendall d]"
    by (simp add: s_def sendall_def socket_new_def)
  have "rx s = b4' @ r @ rest"
    using rp by (simp add: rx_def os) (simp add: s_def sendall_def)
  from recv_frame [OF pk' this] obtain s1 s2 where
    r1: "recvn s DATA_SIZE_LEN = Some (b4', s1)" and rd1: "reads s s1 4" and
    r2: "recvn s1 (length r) = Some (r, s2)" and rd2: "reads s1 s2 (length r)"
    by blast
  from reads_trans [OF rd1 rd2] obtain rs where
    rs: "ops s2 = ops s @ rs" "sent rs = []" "received rs = 4 + length r"
      "requests_within (4 + length r) rs"
    by (auto simp: reads_def)
  have nv: "\<not> MAX_DATA < length d"
    using struct_pack_bound [OF pk] by simp
  have "request net host port (Str d) = Some (Inr r, ops (close s2))"
    using nv nt pk r1 r2 struct_unpack_pack [OF pk']
    by (simp add: request_def connect_def s_def [symmetric])
  then show ?thesis
    using rs os by (simp add: close_def)
qed

subsection \<open>Runs that end\<close>

lemma struct_pack_0: "struct_pack_I 0 = Inr [CHR 0x00, CHR 0x00, CHR 0x00, CHR 0x00]"
  by (simp add: struct_pack_I_def char_of_def)

lemma struct_pack_3: "struct_pack_I 3 = Inr [CHR 0x00, CHR 0x00, CHR 0x00, CHR 0x03]"
  by (simp add: struct_pack_I_def char_of_def bit_Suc_0_iff)

lemma requests_within_no_close: "requests_within k rs \<Longrightarrow> Close \<notin> set rs"
  by (induction k rs rule: requests_within.induct) simp_all

text \<open>Every run of \<^verbatim>\<open>_server\<close> that ends leaves the socket open.\<close>

lemma server_returns:
  assumes "server s h = Some (r, s')"
  shows "\<exists>os. ops s' = ops s @ os \<and> Close \<notin> set os"
proof -
  from assms obtain b4 s1 where r1: "recvn s DATA_SIZE_LEN = Some (b4, s1)"
    by (auto simp: server_def bind_eq_Some_conv)
  from recvn_returns [OF r1] obtain xs where
    xs: "ops s1 = ops s @ xs" "Close \<notin> set xs"
    by (auto simp: reads_def dest: requests_within_no_close)
  show ?thesis
  proof (cases "struct_unpack_I b4")
    case (Inl e)
    with assms r1 xs show ?thesis by (auto simp: server_def)
  next
    case (Inr n)
    with assms r1 obtain req s2 where r2: "recvn s1 n = Some (req, s2)"
      by (auto simp: server_def bind_eq_Some_conv)
    from recvn_returns [OF r2] obtain ys where
      ys: "ops s2 = ops s1 @ ys" "Close \<notin> set ys"
      by (auto simp: reads_def dest: requests_within_no_close)
    from assms r1 r2 Inr have
      "s' = s2 \<or> (\<exists>b r. s' = sendall (sendall s2 b) r)"
      by (auto simp: server_def split: sum.splits pyval.splits if_splits)
    then show ?thesis
      using xs ys by (auto simp: sendall_def)
  qed
qed

text \<open>A run of \<^verbatim>\<open>_server\<close> that ends without an exception has written one frame.\<close>

lemma server_succeeds:
  assumes "server s h = Some (Inr u, s')"
  shows "\<exists>b4 r. struct_pack_I (length r) = Inr b4 \<and> sent (ops s') = sent (ops s) @ b4 @ r"
proof -
  from assms obtain b4 s1 where r1: "recvn s DATA_SIZE_LEN = Some (b4, s1)"
    by (auto simp: server_def bind_eq_Some_conv)
  from assms r1 obtain n where n: "struct_unpack_I b4 = Inr n"
    by (cases "struct_unpack_I b4") (auto simp: server_def)
  from assms r1 n obtain req s2 where r2: "recvn s1 n = Some (req, s2)"
    by (auto simp: server_def bind_eq_Some_conv)
  have "reads s s1 DATA_SIZE_LEN" "reads s1 s2 n"
    using recvn_returns [OF r1] recvn_returns [OF r2] by simp_all
  then have "sent (ops s2) = sent (ops s)"
    using sent_reads [of s s1] sent_reads [of s1 s2] by simp
  moreover from assms r1 n r2 obtain b r where
    "struct_pack_I (length r) = Inr b" "s' = sendall (sendall s2 b) r"
    by (auto simp: server_def split: sum.splits pyval.splits if_splits)
  ultimately show ?thesis
    by (auto simp: sent_sendall)
qed

text \<open>A call of \<^verbatim>\<open>request\<close> that returns a response has written one frame.\<close>

lemma request_succeeds:
  assumes "request net host port data = Some (Inr resp, os)"
  shows "\<exists>d b4 rs. data = Str d \<and> struct_pack_I (length d) = Inr b4 \<and>
           os = [Connect host port, Sendall b4, Sendall d] @ rs @ [Close] \<and> sent rs = []"
proof -
  from assms obtain d where d: "data = Str d" "\<not> MAX_DATA < length d"
    by (cases data) (auto simp: request_def split: if_splits)
  from assms d obtain e where e: "net (host, port) = Some e"
    by (cases "net (host, port)") (auto simp: request_def connect_def)
  from assms d e obtain b4 where b4: "struct_pack_I (length d) = Inr b4"
    by (cases "struct_pack_I (length d)") (auto simp: request_def connect_def)
  define s where "s = sendall (sendall
      (socket_new\<lparr>peer := reply e, eof := closes e, frag := delivery e,
                  ops := ops socket_new @ [Connect host port]\<rparr>) b4) d"
  have os: "ops s = [Connect host port, Sendall b4, Sendall d]"
    by (simp add: s_def sendall_def socket_new_def)
  from assms d e b4 obtain b4' s1 where r1: "recvn s DATA_SIZE_LEN = Some (b4', s1)"
    by (auto simp: request_def connect_def s_def [symmetric] bind_eq_Some_conv)
  from assms d e b4 r1 obtain n where n: "struct_unpack_I b4' = Inr n"
    by (cases "struct_unpack_I b4'") (auto simp: request_def connect_def s_def [symmetric])
  from assms d e b4 r1 n obtain s2 where r2: "recvn s1 n = Some (resp, s2)"
    and o2: "os = ops (close s2)"
    by (auto simp: request_def connect_def s_def [symmetric] bind_eq_Some_conv)
  from reads_trans [of s s1 4 s2 n] recvn_returns [OF r1] recvn_returns [OF r2]
  obtain rs where "ops s2 = ops s @ rs" "sent rs = []"
    by (auto simp: reads_def DATA_SIZE_LEN_4)
  then show ?thesis
    using d b4 os o2 by (simp add: close_def)
qed

lemma listener_sel:
  "closes (listener h sfrag cfrag) = False" "delivery (listener h sfrag cfrag) = cfrag"
  by (simp_all add: listener_def)

lemma struct_pack_abc:
  "struct_pack_I (Suc (Suc (Suc 0))) = Inr [CHR 0x00, CHR 0x00, CHR 0x00, CHR 0x03]"
  using struct_pack_3 by (simp add: numeral_3_eq_3)

lemma echo_reply_abc:
  "reply (listener echo_handler sfrag cfrag)
     (CHR 0x00 # CHR 0x00 # CHR 0x00 # CHR 0x03 # ''abc'') =
   CHR 0x00 # CHR 0x00 # CHR 0x00 # CHR 0x03 # ''abc''"
  using listener_reply [of "''abc''" "[CHR 0x00, CHR 0x00, CHR 0x00, CHR 0x03]" echo_handler
      "''abc''" "[CHR 0x00, CHR 0x00, CHR 0x00, CHR 0x03]" sfrag cfrag]
  by (simp add: struct_pack_abc echo_handler_def)

text \<open>Two runs of the test set-up, evaluated.\<close>

lemma request_abc:
  "request (test_net [] []) ''localhost'' 55555 (Str ''abc'') =
     Some (Inr ''abc'',
           [Connect ''localhost'' 55555, Sendall [CHR 0x00, CHR 0x00, CHR 0x00, CHR 0x03],
            Sendall ''abc'', Recv 4 [CHR 0x00, CHR 0x00, CHR 0x00, CHR 0x03], Recv 3 ''abc'',
            Close])"
  by (simp add: request_def DATA_SIZE_LEN_4 recvn_def recvn_loop.simps recv_def rx_def
      Let_def struct_unpack_I_def MAX_DATA_eq struct_pack_abc listener_sel echo_reply_abc
      sendall_def test_net_def connect_def socket_new_def close_def)

lemma server_abc:
  "server (accepted (CHR 0x00 # CHR 0x00 # CHR 0x00 # CHR 0x03 # ''abc'') [2]) echo_handler =
     Some (Inr (),
           (accepted (CHR 0x00 # CHR 0x00 # CHR 0x00 # CHR 0x03 # ''abc'') [2])
             \<lparr>frag := [],
              ops := [Recv 4 [CHR 0x00, CHR 0x00], Recv 2 [CHR 0x00, CHR 0x03], Recv 3 ''abc'',
                      Sendall [CHR 0x00, CHR 0x00, CHR 0x00, CHR 0x03], Sendall ''abc'']\<rparr>)"
  by (simp add: server_def DATA_SIZE_LEN_4 recvn_def recvn_loop.simps recv_def rx_def
      accepted_def Let_def struct_unpack_I_def echo_handler_def MAX_DATA_eq struct_pack_abc
      sendall_def)

lemma echo_reply_empty:
  "reply (listener echo_handler sfrag cfrag) [CHR 0x00, CHR 0x00, CHR 0x00, CHR 0x00] =
     [CHR 0x00, CHR 0x00, CHR 0x00, CHR 0x00]"
  using listener_reply [of "[]" "[CHR 0x00, CHR 0x00, CHR 0x00, CHR 0x00]" echo_handler
      "[]" "[CHR 0x00, CHR 0x00, CHR 0x00, CHR 0x00]" sfrag cfrag]
  by (simp add: struct_pack_0 echo_handler_def)

lemma test_net_localhost:
  "test_net sfrag cfrag (''localhost'', 55555) = Some (listener echo_handler sfrag cfrag)"
  by (simp add: test_net_def)

lemma server_empty_request:
  "\<exists>s2. reads (accepted [CHR 0x00, CHR 0x00, CHR 0x00, CHR 0x00] []) s2 4 \<and>
     server (accepted [CHR 0x00, CHR 0x00, CHR 0x00, CHR 0x00] []) h =
       (case h [] of
          Inl e \<Rightarrow> Some (Inl e, s2)
        | Inr resp \<Rightarrow>
            (case resp of
               Str r \<Rightarrow>
                 if MAX_DATA < length r then Some (Inl ValueError, s2)
                 else
                   (case struct_pack_I (length r) of
                      Inl e \<Rightarrow> Some (Inl e, s2)
                    | Inr b4' \<Rightarrow> Some (Inr (), sendall (sendall s2 b4') r))
             | _ \<Rightarrow> Some (Inl ValueError, s2)))"
  using server_frame [of "[]" "[CHR 0x00, CHR 0x00, CHR 0x00, CHR 0x00]"
      "accepted [CHR 0x00, CHR 0x00, CHR 0x00, CHR 0x00] []" "[]" h]
  by (simp add: struct_pack_0 rx_accepted)

section \<open>The claims\<close>

subsection \<open>Exact reads\<close>

text \<open>
  C4. For every \<open>n\<close> and every stream that holds at least \<open>n\<close> unread bytes,
  however the transport fragments the delivery (every list \<open>frag s\<close>, each read
  returning a non-empty prefix of what is left, one byte at a time included),
  \<^verbatim>\<open>_recvn(sock, n)\<close> returns, its result is exactly the first \<open>n\<close> bytes of the stream
  in order, and the rest of the stream is left in place.
\<close>

theorem recvn_fragmented:
  assumes "n \<le> length (rx s)"
  shows "\<exists>s'. recvn s n = Some (take n (rx s), s') \<and> rx s' = drop n (rx s)"
  using recvn_complete [OF assms] rx_reads by blast

theorem recvn_fragmented_witness:
  "9 \<le> length (rx (accepted ''request 0tail'' [1, 1, 1, 1, 1, 1, 1, 1, 1])) \<and>
   (\<exists>s'. recvn (accepted ''request 0tail'' [1, 1, 1, 1, 1, 1, 1, 1, 1]) 9 =
            Some (''request 0'', s') \<and>
         rx s' = ''tail'')"
  using recvn_fragmented [of 9 "accepted ''request 0tail'' [1, 1, 1, 1, 1, 1, 1, 1, 1]"]
  by (simp add: rx_accepted)

text \<open>
  C1. The claim is that \<^verbatim>\<open>_recvn(sock, n)\<close> fails with \<^verbatim>\<open>ConnectionClosed\<close> when the
  peer closes the stream before \<open>n\<close> bytes have arrived. The loop has no such exit:
  at the end of the stream every \<^verbatim>\<open>recv\<close> returns the empty string, \<open>m\<close> stays
  below \<open>n\<close>, and the call never returns, neither with a short result nor with an
  error.
\<close>

theorem recvn_premature_close:
  assumes "eof s" "length (rx s) < n"
  shows "recvn s n = None"
  using assms(2) by (rule recvn_short)

theorem recvn_premature_close_witness:
  "eof (hung_up []) \<and> length (rx (hung_up [])) < 4 \<and> recvn (hung_up []) 4 = None"
  using recvn_premature_close [of "hung_up []" 4]
  by (simp add: rx_hung_up) (simp add: hung_up_def)

text \<open>
  C9. Whenever \<^verbatim>\<open>_recvn(sock, n)\<close> returns, everything it did on the socket is a
  sequence of reads, each of which asked for no more than the bytes still missing at that
  point; the reads consumed exactly \<open>n\<close> bytes, the result is the first \<open>n\<close> bytes of
  the stream, and the bytes after them are still unread.
\<close>

theorem recvn_within_region:
  assumes "recvn s n = Some (d, s')"
  shows "\<exists>rs. ops s' = ops s @ rs \<and> requests_within n rs \<and> received rs = n \<and>
              d = take n (rx s) \<and> rx s' = drop n (rx s)"
  using recvn_returns [OF assms] rx_reads [of s s' n] by (auto simp: reads_def)

theorem recvn_within_region_witness:
  "recvn (accepted ''abcXYZ'' [2, 5]) 3 =
     Some (''abc'',
           (accepted ''abcXYZ'' [2, 5])\<lparr>frag := [], ops := [Recv 3 ''ab'', Recv 1 ''c'']\<rparr>) \<and>
   (\<exists>rs. [Recv 3 ''ab'', Recv 1 ''c''] = rs \<and> requests_within 3 rs \<and> received rs = 3 \<and>
         ''abc'' = take 3 ''abcXYZ'' \<and>
         rx ((accepted ''abcXYZ'' [2, 5])\<lparr>frag := [], ops := [Recv 3 ''ab'', Recv 1 ''c'']\<rparr>) =
           ''XYZ'')"
proof -
  have h: "recvn (accepted ''abcXYZ'' [2, 5]) 3 =
     Some (''abc'',
           (accepted ''abcXYZ'' [2, 5])\<lparr>frag := [], ops := [Recv 3 ''ab'', Recv 1 ''c'']\<rparr>)"
    by (simp add: recvn_def recvn_loop.simps recv_def rx_def accepted_def Let_def)
  from recvn_within_region [OF h] show ?thesis
    using h by (simp add: rx_accepted) (simp add: accepted_def)
qed

subsection \<open>Frames\<close>

text \<open>
  C6. Every length prefix that the code writes decodes to the length of the payload
  that follows it: the 4 bytes that \<^verbatim>\<open>struct.pack\<close> returns for \<open>len(p)\<close> unpack
  to \<open>len(p)\<close>; a call of \<^verbatim>\<open>request\<close> that returns a response has written these
  4 bytes followed by the payload; a run of \<^verbatim>\<open>_server\<close> that ends without an
  exception has written such a frame for its response.
\<close>

theorem length_prefix:
  "(struct_pack_I (length p) = Inr pre \<longrightarrow>
      length pre = 4 \<and> struct_unpack_I pre = Inr (length p)) \<and>
   (request net host port (Str p) = Some (Inr resp, os) \<longrightarrow>
      struct_unpack_I (take 4 (sent os)) = Inr (length p) \<and> drop 4 (sent os) = p) \<and>
   (server s h = Some (Inr u, s') \<longrightarrow>
      (\<exists>r. struct_unpack_I (take 4 (drop (length (sent (ops s))) (sent (ops s')))) =
              Inr (length r) \<and>
            drop (4 + length (sent (ops s))) (sent (ops s')) = r))"
proof (intro conjI impI)
  assume "struct_pack_I (length p) = Inr pre"
  then show "length pre = 4" "struct_unpack_I pre = Inr (length p)"
    by (simp_all add: struct_pack_length struct_unpack_pack)
next
  assume "request net host port (Str p) = Some (Inr resp, os)"
  from request_succeeds [OF this] obtain b rs where
    b: "struct_pack_I (length p) = Inr b" and
    os: "os = [Connect host port, Sendall b, Sendall p] @ rs @ [Close]" "sent rs = []"
    by auto
  have "sent os = b @ p"
    using os by (simp add: sent_append)
  then show "struct_unpack_I (take 4 (sent os)) = Inr (length p)" "drop 4 (sent os) = p"
    using struct_pack_length [OF b] struct_unpack_pack [OF b] by simp_all
next
  assume "server s h = Some (Inr u, s')"
  from server_succeeds [OF this] obtain b r where
    b: "struct_pack_I (length r) = Inr b" and st: "sent (ops s') = sent (ops s) @ b @ r"
    by auto
  have "struct_unpack_I (take 4 (drop (length (sent (ops s))) (sent (ops s')))) =
          Inr (length r) \<and>
        drop (4 + length (sent (ops s))) (sent (ops s')) = r"
    using st struct_pack_length [OF b] struct_unpack_pack [OF b] by simp
  then show "\<exists>r. struct_unpack_I (take 4 (drop (length (sent (ops s))) (sent (ops s')))) =
              Inr (length r) \<and>
            drop (4 + length (sent (ops s))) (sent (ops s')) = r"
    by blast
qed

theorem length_prefix_witness:
  "struct_pack_I (length ''abc'') = Inr [CHR 0x00, CHR 0x00, CHR 0x00, CHR 0x03] \<and>
   struct_unpack_I [CHR 0x00, CHR 0x00, CHR 0x00, CHR 0x03] = Inr (length ''abc'') \<and>
   request (test_net [] []) ''localhost'' 55555 (Str ''abc'') =
     Some (Inr ''abc'',
           [Connect ''localhost'' 55555, Sendall [CHR 0x00, CHR 0x00, CHR 0x00, CHR 0x03],
            Sendall ''abc'', Recv 4 [CHR 0x00, CHR 0x00, CHR 0x00, CHR 0x03], Recv 3 ''abc'',
            Close]) \<and>
   struct_unpack_I (take 4 (sent
           [Connect ''localhost'' 55555, Sendall [CHR 0x00, CHR 0x00, CHR 0x00, CHR 0x03],
            Sendall ''abc'', Recv 4 [CHR 0x00, CHR 0x00, CHR 0x00, CHR 0x03], Recv 3 ''abc'',
            Close])) = Inr (length ''abc'') \<and>
   server (accepted (CHR 0x00 # CHR 0x00 # CHR 0x00 # CHR 0x03 # ''abc'') [2]) echo_handler =
     Some (Inr (),
           (accepted (CHR 0x00 # CHR 0x00 # CHR 0x00 # CHR 0x03 # ''abc'') [2])
             \<lparr>frag := [],
              ops := [Recv 4 [CHR 0x00, CHR 0x00], Recv 2 [CHR 0x00, CHR 0x03], Recv 3 ''abc'',
                      Sendall [CHR 0x00, CHR 0x00, CHR 0x00, CHR 0x03], Sendall ''abc'']\<rparr>) \<and>
   (\<exists>r. struct_unpack_I (take 4 (sent
             [Recv 4 [CHR 0x00, CHR 0x00], Recv 2 [CHR 0x00, CHR 0x03], Recv 3 ''abc'',
              Sendall [CHR 0x00, CHR 0x00, CHR 0x00, CHR 0x03], Sendall ''abc''])) =
           Inr (length r) \<and>
         drop 4 (sent
             [Recv 4 [CHR 0x00, CHR 0x00], Recv 2 [CHR 0x00, CHR 0x03], Recv 3 ''abc'',
              Sendall [CHR 0x00, CHR 0x00, CHR 0x00, CHR 0x03], Sendall ''abc'']) = r)"
  using length_prefix [where p = "''abc''" and pre = "[CHR 0x00, CHR 0x00, CHR 0x00, CHR 0x03]"
      and net = "test_net [] []" and host = "''localhost''" and port = 55555
      and resp = "''abc''"
      and os = "[Connect ''localhost'' 55555, Sendall [CHR 0x00, CHR 0x00, CHR 0x00, CHR 0x03],
            Sendall ''abc'', Recv 4 [CHR 0x00, CHR 0x00, CHR 0x00, CHR 0x03], Recv 3 ''abc'',
            Close]"
      and s = "accepted (CHR 0x00 # CHR 0x00 # CHR 0x00 # CHR 0x03 # ''abc'') [2]"
      and h = echo_handler and u = "()"
      and s' = "(accepted (CHR 0x00 # CHR 0x00 # CHR 0x00 # CHR 0x03 # ''abc'') [2])
             \<lparr>frag := [],
              ops := [Recv 4 [CHR 0x00, CHR 0x00], Recv 2 [CHR 0x00, CHR 0x03], Recv 3 ''abc'',
                      Sendall [CHR 0x00, CHR 0x00, CHR 0x00, CHR 0x03], Sendall ''abc'']\<rparr>"]
    request_abc server_abc
  by (simp add: struct_pack_abc accepted_def)

subsection \<open>The two peers\<close>

text \<open>
  C8. A client that sends the empty payload to a server with the echo handler, under
  any fragmentation in both directions: the client writes the 4 bytes of the length 0
  and then no payload byte; the server, having read these 4 bytes, writes the 4
  bytes of the length 0 and then no payload byte; the client reads 4 bytes in all and
  \<^verbatim>\<open>request\<close> returns the empty payload.
\<close>

theorem zero_length_echo:
  "\<exists>rs s2.
     request (test_net sfrag cfrag) ''localhost'' 55555 (Str []) =
       Some (Inr [],
             [Connect ''localhost'' 55555, Sendall [CHR 0x00, CHR 0x00, CHR 0x00, CHR 0x00],
              Sendall []] @ rs @ [Close]) \<and>
     sent rs = [] \<and> received rs = 4 \<and>
     server (accepted [CHR 0x00, CHR 0x00, CHR 0x00, CHR 0x00] sfrag) echo_handler =
       Some (Inr (), sendall (sendall s2 [CHR 0x00, CHR 0x00, CHR 0x00, CHR 0x00]) []) \<and>
     sent (ops s2) = [] \<and>
     reply (listener echo_handler sfrag cfrag) [CHR 0x00, CHR 0x00, CHR 0x00, CHR 0x00] =
       [CHR 0x00, CHR 0x00, CHR 0x00, CHR 0x00]"
proof -
  let ?z = "[CHR 0x00, CHR 0x00, CHR 0x00, CHR 0x00]"
  have pk: "struct_pack_I (length ([] :: string)) = Inr ?z"
    by (simp add: struct_pack_0)
  have rp: "reply (listener echo_handler sfrag cfrag) (?z @ []) = ?z @ [] @ []"
    by (simp add: echo_reply_empty)
  from request_answered [where net = "test_net sfrag cfrag" and host = "''localhost''"
      and port = 55555, OF test_net_localhost pk pk rp] obtain rs where
    rq: "request (test_net sfrag cfrag) ''localhost'' 55555 (Str []) =
           Some (Inr [], [Connect ''localhost'' 55555, Sendall ?z, Sendall []] @ rs @ [Close])"
    and rs: "sent rs = []" "received rs = 4"
    by auto
  have "rx (accepted ?z sfrag) = ?z @ [] @ []"
    by (simp add: rx_accepted)
  from server_answers [where h = echo_handler, OF pk this _ pk] obtain s2 where
    rd: "reads (accepted ?z sfrag) s2 (4 + length ([] :: string))" and
    sv: "server (accepted ?z sfrag) echo_handler = Some (Inr (), sendall (sendall s2 ?z) [])"
    by (auto simp: echo_handler_def)
  have "sent (ops s2) = []"
    using sent_reads [OF rd] by (simp add: accepted_def)
  with rq rs sv echo_reply_empty show ?thesis
    by blast
qed

text \<open>
  C10. When the stream holds a whole request frame and the handler raises on its
  payload, \<^verbatim>\<open>_server\<close> ends with that exception, and all it has done on the socket
  is reading the frame: it has written no byte.
\<close>

theorem handler_exception_writes_nothing:
  assumes "struct_pack_I (length p) = Inr pre" "rx s = pre @ p @ rest" "h p = Inl e"
  shows "\<exists>s' rs. server s h = Some (Inl e, s') \<and> ops s' = ops s @ rs \<and>
           requests_within (4 + length p) rs \<and> sent (ops s') = sent (ops s)"
proof -
  from server_frame [OF assms(1, 2), of h] assms(3) obtain s2 where
    rd: "reads s s2 (4 + length p)" and sv: "server s h = Some (Inl e, s2)"
    by auto
  from rd obtain rs where "ops s2 = ops s @ rs" "requests_within (4 + length p) rs"
    by (auto simp: reads_def)
  with sv sent_reads [OF rd] show ?thesis
    by blast
qed

theorem handler_exception_writes_nothing_witness:
  "struct_pack_I (length ''abc'') = Inr [CHR 0x00, CHR 0x00, CHR 0x00, CHR 0x03] \<and>
   rx (accepted (CHR 0x00 # CHR 0x00 # CHR 0x00 # CHR 0x03 # ''abc'') [1, 1]) =
     [CHR 0x00, CHR 0x00, CHR 0x00, CHR 0x03] @ ''abc'' @ [] \<and>
   failing_handler ''abc'' = Inl (Raised ''boom'') \<and>
   (\<exists>s' rs. server (accepted (CHR 0x00 # CHR 0x00 # CHR 0x00 # CHR 0x03 # ''abc'') [1, 1])
               failing_handler = Some (Inl (Raised ''boom''), s') \<and>
            ops s' = rs \<and> requests_within 7 rs \<and> sent (ops s') = [])"
  using handler_exception_writes_nothing [where p = "''abc''"
      and pre = "[CHR 0x00, CHR 0x00, CHR 0x00, CHR 0x03]"
      and s = "accepted (CHR 0x00 # CHR 0x00 # CHR 0x00 # CHR 0x03 # ''abc'') [1, 1]"
      and rest = "[]" and h = failing_handler and e = "Raised ''boom''"]
  by (simp add: struct_pack_abc rx_accepted failing_handler_def) (simp add: accepted_def)

subsection \<open>Validation\<close>

text \<open>
  C7. When \<open>data\<close> is not a byte payload of at most \<open>MAX_DATA\<close> bytes (it is not a
  \<^verbatim>\<open>str\<close>, or it is a \<^verbatim>\<open>str\<close> that is longer), \<^verbatim>\<open>request\<close> raises
  \<^verbatim>\<open>ValueError\<close>, the \<^verbatim>\<open>ValidationError\<close> of the specification, and has performed
  no operation on any socket: no connection attempt, no write. This is so on every
  network, also on one where the connection would be refused or the server would never
  answer.
\<close>

theorem request_validates_first:
  assumes "\<not> is_payload data"
  shows "request net host port data = Some (Inl ValueError, [])"
  using assms by (cases data) (simp_all add: request_def is_payload_def)

theorem request_validates_first_witness:
  "\<not> is_payload (IntVal 5) \<and>
   \<not> is_payload (Str (replicate (Suc MAX_DATA) (CHR ''1''))) \<and>
   request (test_net [] []) ''localhost'' 55555 (IntVal 5) = Some (Inl ValueError, []) \<and>
   request (test_net [] []) ''localhost'' 55555 (Str (replicate (Suc MAX_DATA) (CHR ''1''))) =
     Some (Inl ValueError, [])"
  using request_validates_first [of "IntVal 5" "test_net [] []" "''localhost''" 55555]
    request_validates_first [of "Str (replicate (Suc MAX_DATA) (CHR ''1''))" "test_net [] []"
      "''localhost''" 55555]
  by (simp add: is_payload_def)

subsection \<open>The server task\<close>

text \<open>
  C5. The claim is that the connection task writes the response frame and then closes
  the connection. The first half holds: when the stream holds a whole request frame and
  the handler returns a \<^verbatim>\<open>str\<close> of fewer than \<open>2^32\<close> bytes, \<^verbatim>\<open>_server\<close> reads
  the request frame, writes the 4 bytes of the length and the payload, and returns. The
  second half does not: these two writes are the last operations on the socket, it is
  never closed (\<^verbatim>\<open>request\<close>, the other end, does call \<^verbatim>\<open>close\<close>).
\<close>

theorem server_writes_frame_leaves_open:
  assumes "struct_pack_I (length p) = Inr pre" "rx s = pre @ p @ rest"
    "h p = Inr (Str r)" "length r < MAX_DATA"
  shows "\<exists>s' rs pre'. server s h = Some (Inr (), s') \<and>
           ops s' = ops s @ rs @ [Sendall pre', Sendall r] \<and>
           requests_within (4 + length p) rs \<and>
           struct_unpack_I pre' = Inr (length r) \<and>
           Close \<notin> set (rs @ [Sendall pre', Sendall r])"
proof -
  from struct_pack_Inr [OF assms(4)] obtain pre' where pk': "struct_pack_I (length r) = Inr pre'"
    by blast
  from server_answers [where h = h, OF assms(1, 2, 3) pk'] obtain s2 where
    rd: "reads s s2 (4 + length p)" and
    sv: "server s h = Some (Inr (), sendall (sendall s2 pre') r)"
    by blast
  from rd obtain rs where rs: "ops s2 = ops s @ rs" "requests_within (4 + length p) rs"
    by (auto simp: reads_def)
  have "ops (sendall (sendall s2 pre') r) = ops s @ rs @ [Sendall pre', Sendall r]"
    using rs by (simp add: sendall_def)
  moreover have "Close \<notin> set (rs @ [Sendall pre', Sendall r])"
    using requests_within_no_close [OF rs(2)] by simp
  ultimately show ?thesis
    using sv rs(2) struct_unpack_pack [OF pk'] by blast
qed

theorem server_writes_frame_leaves_open_witness:
  "struct_pack_I (length ''abc'') = Inr [CHR 0x00, CHR 0x00, CHR 0x00, CHR 0x03] \<and>
   rx (accepted (CHR 0x00 # CHR 0x00 # CHR 0x00 # CHR 0x03 # ''abc'') [2]) =
     [CHR 0x00, CHR 0x00, CHR 0x00, CHR 0x03] @ ''abc'' @ [] \<and>
   echo_handler ''abc'' = Inr (Str ''abc'') \<and> length ''abc'' < MAX_DATA \<and>
   (\<exists>s' rs pre'.
      server (accepted (CHR 0x00 # CHR 0x00 # CHR 0x00 # CHR 0x03 # ''abc'') [2]) echo_handler =
        Some (Inr (), s') \<and>
      ops s' = rs @ [Sendall pre', Sendall ''abc''] \<and> requests_within 7 rs \<and>
      struct_unpack_I pre' = Inr (length ''abc'') \<and> Close \<notin> set (rs @ [Sendall pre', Sendall ''abc'']))"
  using server_writes_frame_leaves_open [where p = "''abc''"
      and pre = "[CHR 0x00, CHR 0x00, CHR 0x00, CHR 0x03]"
      and s = "accepted (CHR 0x00 # CHR 0x00 # CHR 0x00 # CHR 0x03 # ''abc'') [2]"
      and rest = "[]" and h = echo_handler and r = "''abc''"]
  by (simp add: struct_pack_abc rx_accepted echo_handler_def MAX_DATA_eq)
     (simp add: accepted_def)

subsection \<open>The largest payload\<close>

text \<open>
  C2. The claim is that a payload of \<open>MAX_DATA + 1\<close> bytes is rejected with
  \<^verbatim>\<open>ValidationError\<close> and that a payload of exactly \<open>MAX_DATA = 2^32\<close> bytes is encoded
  as a well-formed frame, in \<^verbatim>\<open>request\<close> and in \<^verbatim>\<open>_server\<close>. The second half fails:
  the length \<open>2^32\<close> passes the test \<^verbatim>\<open>len(data) > MAX_DATA\<close>, but 4 bytes cannot hold
  it and \<^verbatim>\<open>struct.pack\<close> raises \<^verbatim>\<open>struct.error\<close>; no frame is written.
\<close>

theorem encode_MAX_DATA_counterexample:
  "request (test_net [] []) ''localhost'' 55555 (Str (replicate MAX_DATA (CHR ''1''))) =
     Some (Inl StructError, [Connect ''localhost'' 55555]) \<and>
   map_option fst (server (accepted [CHR 0x00, CHR 0x00, CHR 0x00, CHR 0x00] []) big_handler) =
     Some (Inl StructError)"
proof -
  have "request (test_net [] []) ''localhost'' 55555 (Str (replicate MAX_DATA (CHR ''1''))) =
     Some (Inl StructError, [Connect ''localhost'' 55555])"
    by (simp add: request_def connect_def test_net_def socket_new_def struct_pack_MAX_DATA)
  moreover have
    "map_option fst (server (accepted [CHR 0x00, CHR 0x00, CHR 0x00, CHR 0x00] []) big_handler) =
       Some (Inl StructError)"
    using server_empty_request [of big_handler]
    by (auto simp: big_handler_def struct_pack_MAX_DATA)
  ultimately show ?thesis by simp
qed

text \<open>
  C2, amended. A payload of more than \<open>MAX_DATA\<close> bytes, \<open>MAX_DATA + 1\<close> in
  particular, is rejected with \<^verbatim>\<open>ValueError\<close>: by \<^verbatim>\<open>request\<close> before it touches any
  socket, and by \<^verbatim>\<open>_server\<close>, for the return value of the handler, before it writes
  any byte. A payload of fewer than \<open>MAX_DATA\<close> bytes, \<open>MAX_DATA - 1\<close> in particular,
  is encoded as a well-formed frame by both: 4 bytes that decode to the length of the
  payload, followed by the payload.
\<close>

theorem oversize_rejected:
  "(MAX_DATA < length d \<longrightarrow> request net host port (Str d) = Some (Inl ValueError, [])) \<and>
   (MAX_DATA < length r \<and> h p = Inr (Str r) \<and>
    struct_pack_I (length p) = Inr pre \<and> rx s = pre @ p @ rest \<longrightarrow>
      (\<exists>s'. server s h = Some (Inl ValueError, s') \<and> sent (ops s') = sent (ops s))) \<and>
   (length q < MAX_DATA \<and> length a < MAX_DATA \<and> g q = Inr (Str a) \<and>
    net' (host, port) = Some (listener g sfrag cfrag) \<longrightarrow>
      (\<exists>rs qpre apre.
         request net' host port (Str q) =
           Some (Inr a, [Connect host port, Sendall qpre, Sendall q] @ rs @ [Close]) \<and>
         struct_unpack_I qpre = Inr (length q) \<and>
         reply (listener g sfrag cfrag) (qpre @ q) = apre @ a \<and>
         struct_unpack_I apre = Inr (length a)))"
proof (intro conjI impI)
  assume "MAX_DATA < length d"
  then show "request net host port (Str d) = Some (Inl ValueError, [])"
    by (simp add: request_def)
next
  assume a: "MAX_DATA < length r \<and> h p = Inr (Str r) \<and>
    struct_pack_I (length p) = Inr pre \<and> rx s = pre @ p @ rest"
  then have pk: "struct_pack_I (length p) = Inr pre" and rxs: "rx s = pre @ p @ rest"
    by simp_all
  from server_frame [OF pk rxs, of h] a obtain s2 where
    "reads s s2 (4 + length p)" "server s h = Some (Inl ValueError, s2)"
    by auto
  then show "\<exists>s'. server s h = Some (Inl ValueError, s') \<and> sent (ops s') = sent (ops s)"
    using sent_reads by blast
next
  assume a: "length q < MAX_DATA \<and> length a < MAX_DATA \<and> g q = Inr (Str a) \<and>
    net' (host, port) = Some (listener g sfrag cfrag)"
  from a struct_pack_Inr [of "length q"] obtain qpre where
    qp: "struct_pack_I (length q) = Inr qpre" by blast
  from a struct_pack_Inr [of "length a"] obtain apre where
    ap: "struct_pack_I (length a) = Inr apre" by blast
  from a have gq: "g q = Inr (Str a)" and nt: "net' (host, port) = Some (listener g sfrag cfrag)"
    by simp_all
  have rp: "reply (listener g sfrag cfrag) (qpre @ q) = apre @ a"
    using listener_reply [where h = g, OF qp gq ap] .
  then have "reply (listener g sfrag cfrag) (qpre @ q) = apre @ a @ []"
    by simp
  from request_answered [where net = net' and host = host and port = port, OF nt qp ap this]
  obtain rs where
    "request net' host port (Str q) =
       Some (Inr a, [Connect host port, Sendall qpre, Sendall q] @ rs @ [Close])"
    by blast
  then show "\<exists>rs qpre apre.
         request net' host port (Str q) =
           Some (Inr a, [Connect host port, Sendall qpre, Sendall q] @ rs @ [Close]) \<and>
         struct_unpack_I qpre = Inr (length q) \<and>
         reply (listener g sfrag cfrag) (qpre @ q) = apre @ a \<and>
         struct_unpack_I apre = Inr (length a)"
    using rp struct_unpack_pack [OF qp] struct_unpack_pack [OF ap] by blast
qed

theorem oversize_rejected_witness:
  "MAX_DATA < length (replicate (MAX_DATA + 1) (CHR ''1'')) \<and>
   request (test_net [] []) ''localhost'' 55555 (Str (replicate (MAX_DATA + 1) (CHR ''1''))) =
     Some (Inl ValueError, []) \<and>
   oversize_handler [] = Inr (Str (replicate (MAX_DATA + 1) (CHR ''1''))) \<and>
   struct_pack_I (length ([] :: string)) = Inr [CHR 0x00, CHR 0x00, CHR 0x00, CHR 0x00] \<and>
   rx (accepted [CHR 0x00, CHR 0x00, CHR 0x00, CHR 0x00] []) =
     [CHR 0x00, CHR 0x00, CHR 0x00, CHR 0x00] @ [] @ [] \<and>
   (\<exists>s'. server (accepted [CHR 0x00, CHR 0x00, CHR 0x00, CHR 0x00] []) oversize_handler =
           Some (Inl ValueError, s') \<and>
         sent (ops s') = []) \<and>
   length (replicate (MAX_DATA - 1) (CHR ''1'')) < MAX_DATA \<and>
   echo_handler (replicate (MAX_DATA - 1) (CHR ''1'')) =
     Inr (Str (replicate (MAX_DATA - 1) (CHR ''1''))) \<and>
   test_net [] [] (''localhost'', 55555) = Some (listener echo_handler [] []) \<and>
   (\<exists>rs qpre apre.
      request (test_net [] []) ''localhost'' 55555 (Str (replicate (MAX_DATA - 1) (CHR ''1''))) =
        Some (Inr (replicate (MAX_DATA - 1) (CHR ''1'')),
              [Connect ''localhost'' 55555, Sendall qpre,
               Sendall (replicate (MAX_DATA - 1) (CHR ''1''))] @ rs @ [Close]) \<and>
      struct_unpack_I qpre = Inr (MAX_DATA - 1) \<and>
      reply (listener echo_handler [] []) (qpre @ replicate (MAX_DATA - 1) (CHR ''1'')) =
        apre @ replicate (MAX_DATA - 1) (CHR ''1'') \<and>
      struct_unpack_I apre = Inr (MAX_DATA - 1))"
proof -
  have pos: "0 < MAX_DATA"
    by (simp add: MAX_DATA_eq)
  note th = oversize_rejected [where d = "replicate (MAX_DATA + 1) (CHR ''1'')"
      and net = "test_net [] []" and host = "''localhost''" and port = 55555
      and r = "replicate (MAX_DATA + 1) (CHR ''1'')" and h = oversize_handler and p = "[]"
      and pre = "[CHR 0x00, CHR 0x00, CHR 0x00, CHR 0x00]"
      and s = "accepted [CHR 0x00, CHR 0x00, CHR 0x00, CHR 0x00] []" and rest = "[]"
      and q = "replicate (MAX_DATA - 1) (CHR ''1'')" and a = "replicate (MAX_DATA - 1) (CHR ''1'')"
      and g = echo_handler and net' = "test_net [] []" and sfrag = "[]" and cfrag = "[]"]
  have ops0: "sent (ops (accepted [CHR 0x00, CHR 0x00, CHR 0x00, CHR 0x00] [])) = []"
    by (simp add: accepted_def)
  from th pos ops0 show ?thesis
    by (simp add: oversize_handler_def struct_pack_0 rx_accepted echo_handler_def
        test_net_localhost)
qed

subsection \<open>Round trip\<close>

text \<open>
  C3. The claim is that decoding the encoding of \<open>p\<close> yields \<open>p\<close> for every payload
  of at most \<open>MAX_DATA\<close> bytes. For a payload of exactly \<open>MAX_DATA\<close> bytes there is
  no encoding to decode: \<^verbatim>\<open>struct.pack\<close> raises, and the request that should have
  come back from the echo server ends with \<^verbatim>\<open>struct.error\<close>.
\<close>

theorem roundtrip_MAX_DATA_counterexample:
  "struct_pack_I (length (replicate MAX_DATA (CHR ''x''))) = Inl StructError \<and>
   map_option fst
     (request (test_net [1] [1]) ''localhost'' 55555 (Str (replicate MAX_DATA (CHR ''x'')))) =
     Some (Inl StructError)"
  by (simp add: request_def connect_def test_net_def socket_new_def struct_pack_MAX_DATA)

text \<open>
  C3, amended. For every payload \<open>p\<close> of fewer than \<open>MAX_DATA\<close> bytes, that is of at
  most \<open>2^32 - 1\<close> bytes, decoding the encoding of \<open>p\<close> yields \<open>p\<close>. The encoding
  is what the code writes, the 4 bytes of \<^verbatim>\<open>struct.pack\<close> and then \<open>p\<close>. On any stream
  that starts with it, under any fragmentation, reading \<open>DATA_SIZE_LEN\<close> bytes,
  unpacking them and reading that many bytes gives \<open>p\<close> and stops at the end of the
  frame. With both peers: the request \<open>p\<close> sent to the echo server comes back as \<open>p\<close>.
\<close>

theorem frame_roundtrip:
  assumes "length p < MAX_DATA"
  shows "\<exists>pre. struct_pack_I (length p) = Inr pre \<and>
           (\<exists>s1 s2. recvn (accepted (pre @ p @ rest) fr) DATA_SIZE_LEN = Some (pre, s1) \<and>
                    struct_unpack_I pre = Inr (length p) \<and>
                    recvn s1 (length p) = Some (p, s2) \<and> rx s2 = rest) \<and>
           (\<exists>os. request (test_net sfrag cfrag) ''localhost'' 55555 (Str p) =
                    Some (Inr p, os))"
proof -
  from struct_pack_Inr [OF assms] obtain pre where pk: "struct_pack_I (length p) = Inr pre"
    by blast
  have "rx (accepted (pre @ p @ rest) fr) = pre @ p @ rest"
    by (simp add: rx_accepted)
  from recv_frame [OF pk this] have
    "\<exists>s1 s2. recvn (accepted (pre @ p @ rest) fr) DATA_SIZE_LEN = Some (pre, s1) \<and>
             struct_unpack_I pre = Inr (length p) \<and>
             recvn s1 (length p) = Some (p, s2) \<and> rx s2 = rest"
    using struct_unpack_pack [OF pk] by blast
  moreover have "reply (listener echo_handler sfrag cfrag) (pre @ p) = pre @ p @ []"
    using listener_reply [where h = echo_handler, OF pk _ pk] by (simp add: echo_handler_def)
  from request_answered [where net = "test_net sfrag cfrag" and host = "''localhost''"
      and port = 55555, OF test_net_localhost pk pk this]
  have "\<exists>os. request (test_net sfrag cfrag) ''localhost'' 55555 (Str p) = Some (Inr p, os)"
    by blast
  ultimately show ?thesis
    using pk by blast
qed

theorem frame_roundtrip_witness:
  "length ''request 0'' < MAX_DATA \<and>
   (\<exists>pre. struct_pack_I (length ''request 0'') = Inr pre \<and>
      (\<exists>s1 s2. recvn (accepted (pre @ ''request 0'' @ ''next'') [1, 1, 1, 1, 1]) DATA_SIZE_LEN =
                 Some (pre, s1) \<and>
               struct_unpack_I pre = Inr (length ''request 0'') \<and>
               recvn s1 (length ''request 0'') = Some (''request 0'', s2) \<and> rx s2 = ''next'') \<and>
      (\<exists>os. request (test_net [1, 2] [3]) ''localhost'' 55555 (Str ''request 0'') =
               Some (Inr ''request 0'', os)))"
  using frame_roundtrip [of "''request 0''" "''next''" "[1, 1, 1, 1, 1]" "[1, 2]" "[3]"]
  by (simp add: MAX_DATA_eq)

end
